theory Spec2Isabelle
  imports Complex_Main
begin

section \<open>The presence tracker of \<^verbatim>\<open>src/app.py\<close>\<close>

text \<open>
  The class \<^verbatim>\<open>PresenceTrackerApp\<close> is embedded by explicit state passing: every
  method takes the tracker and returns the tracker it leaves behind.  What a method
  reads from outside the object (the clock, the camera, the detector, the database
  driver) comes in through an \<open>env\<close> record, one per call.

  Timestamps are Python floats read from \<^verbatim>\<open>time.time()\<close>; they are modelled as
  real numbers, so all statements below are about exact arithmetic.  The Tk widgets are
  represented by what they show: the status label by a \<open>status_text\<close>, the two time
  labels by the number of seconds handed to \<^verbatim>\<open>format_duration\<close>.  The camera and model
  handles and the console output are not part of the state.  The field \<open>presence\<close>
  lists, for every successful \<^verbatim>\<open>INSERT\<close> into the table \<^verbatim>\<open>presence\<close> of the database
  file, the three arguments of \<^verbatim>\<open>save_session\<close>; what the table then holds, with the two
  timestamps rendered as text, is \<open>presence_table\<close>.  The calendar day of a timestamp is
  taken in UTC.
\<close>

subsection \<open>Data\<close>

text \<open>The only uncaught exception the state machine itself can raise: arithmetic on a
  timestamp attribute that holds \<^verbatim>\<open>None\<close>.  The methods return \<open>Inl TypeError\<close> there and
  \<open>Inr\<close> of the new tracker otherwise.\<close>

datatype py_error = TypeError

datatype status_text =
    StatusStopped
  | StatusPaused
  | StatusDetected
  | StatusNotDetected
  | StatusDetectionError
  | StatusCameraError
  | StatusCameraReadError

text \<open>The outcome of \<^verbatim>\<open>self.model.track(...)\<close>: the number of boxes of the first
  result, or any exception raised inside the \<^verbatim>\<open>try\<close> block.\<close>

datatype detection = Boxes nat | TrackError

record session_row =
  start_time :: real
  end_time :: real
  duration :: real

record env =
  clock :: real
  frame_ok :: bool
  track :: detection
  db_connect_ok :: bool
  db_insert_ok :: bool
  db_query_ok :: bool
  model_ok :: bool
  camera_ok :: bool

record tracker =
  running :: bool
  paused :: bool
  conn :: bool
  presence :: "session_row list"
  session_active :: bool
  session_start_time :: "real option"
  current_session_duration :: real
  last_detection_run_time :: real
  detection_interval :: real
  absence_start_time :: "real option"
  total_time_today :: real
  pause_start_time :: "real option"
  status_label :: status_text
  today_time_label :: real
  session_time_label :: real

text \<open>\<^verbatim>\<open>self.absence_threshold\<close> is assigned once, in \<^verbatim>\<open>__init__\<close>, and never again.\<close>

definition absence_threshold :: real where
  "absence_threshold = 3"

definition bind_res :: "py_error + 'a \<Rightarrow> ('a \<Rightarrow> py_error + 'b) \<Rightarrow> py_error + 'b" where
  "bind_res r f = (case r of Inl err \<Rightarrow> Inl err | Inr x \<Rightarrow> f x)"

definition person_detected :: "detection \<Rightarrow> bool" where
  "person_detected d = (case d of Boxes n \<Rightarrow> 0 < n | TrackError \<Rightarrow> False)"

subsection \<open>Database methods\<close>

definition day_of :: "real \<Rightarrow> int" where
  "day_of t = \<lfloor>t / 86400\<rfloor>"

definition sum_duration_for_day :: "session_row list \<Rightarrow> int \<Rightarrow> real" where
  "sum_duration_for_day rows d =
     sum_list (map duration (filter (\<lambda>r. day_of (start_time r) = d) rows))"

definition connect_db :: "tracker \<Rightarrow> env \<Rightarrow> tracker" where
  "connect_db s e = (if db_connect_ok e then s\<lparr>conn := True\<rparr> else s\<lparr>conn := False\<rparr>)"

definition close_db :: "tracker \<Rightarrow> tracker" where
  "close_db s = (if conn s then s\<lparr>conn := False\<rparr> else s)"

definition get_total_time_for_today :: "tracker \<Rightarrow> env \<Rightarrow> real" where
  "get_total_time_for_today s e =
     (if conn s then
        (if db_query_ok e then sum_duration_for_day (presence s) (day_of (clock e)) else 0)
      else 0)"

definition save_session :: "tracker \<Rightarrow> real \<Rightarrow> real \<Rightarrow> real \<Rightarrow> env \<Rightarrow> tracker" where
  "save_session s st en d e =
     (if conn s then
        (if db_insert_ok e then
           (let s1 = s\<lparr>presence := presence s @ [\<lparr>start_time = st, end_time = en, duration = d\<rparr>]\<rparr>;
                s2 = s1\<lparr>total_time_today := get_total_time_for_today s1 e\<rparr>
            in s2\<lparr>today_time_label := total_time_today s2\<rparr>)
         else s)
      else s)"






subsection \<open>GUI state\<close>

definition update_gui_state :: "tracker \<Rightarrow> tracker" where
  "update_gui_state s =
     (if \<not> running s \<and> \<not> paused s then s\<lparr>status_label := StatusStopped\<rparr>
      else if running s \<and> \<not> paused s then s
      else if paused s then s\<lparr>status_label := StatusPaused\<rparr>
      else s)"

subsection \<open>Construction\<close>

definition init_tracker :: "session_row list \<Rightarrow> env \<Rightarrow> tracker" where
  "init_tracker rows e =
     (let s0 = \<lparr>running = False, paused = False, conn = False, presence = rows,
                session_active = False, session_start_time = None,
                current_session_duration = 0, last_detection_run_time = clock e,
                detection_interval = 1, absence_start_time = None,
                total_time_today = 0, pause_start_time = None,
                status_label = StatusStopped, today_time_label = 0,
                session_time_label = 0\<rparr>;
          s1 = connect_db s0 e;
          s2 = s1\<lparr>total_time_today := get_total_time_for_today s1 e\<rparr>;
          s3 = s2\<lparr>today_time_label := total_time_today s2\<rparr>
      in update_gui_state s3)"

subsection \<open>Core logic\<close>

definition stop_tracker :: "tracker \<Rightarrow> env \<Rightarrow> py_error + tracker" where
  "stop_tracker s e =
     (if running s \<or> paused s then
        (let s1 = s\<lparr>running := False, paused := False, pause_start_time := None\<rparr>
         in bind_res
              (if session_active s1 then
                 (case session_start_time s1 of
                    None \<Rightarrow> Inl TypeError
                  | Some st \<Rightarrow>
                      (let session_end_time = clock e;
                           d = session_end_time - st;
                           s2 = (if d > 0.1 then save_session s1 st session_end_time d e else s1)
                       in Inr (s2\<lparr>session_active := False, session_start_time := None,
                                  current_session_duration := 0, session_time_label := 0\<rparr>)))
               else Inr s1)
              (\<lambda>s3. let s4 = close_db s3;
                        s5 = update_gui_state s4;
                        s6 = s5\<lparr>status_label := StatusStopped\<rparr>;
                        s7 = s6\<lparr>total_time_today := get_total_time_for_today s6 e\<rparr>
                    in Inr (s7\<lparr>today_time_label := total_time_today s7\<rparr>)))
      else Inr s)"

text \<open>The body of the test \<^verbatim>\<open>current_time - self.last_detection_run_time >=
  self.detection_interval\<close> in \<^verbatim>\<open>update_frame\<close>: one detection run.\<close>

definition detection_run :: "tracker \<Rightarrow> env \<Rightarrow> py_error + tracker" where
  "detection_run s e =
     (let current_time = clock e;
          s1 = s\<lparr>last_detection_run_time := current_time\<rparr>;
          s2 = (case track e of
                  Boxes n \<Rightarrow> s1
                | TrackError \<Rightarrow> s1\<lparr>status_label := StatusDetectionError\<rparr>)
      in if person_detected (track e) then
           (let s3 = s2\<lparr>status_label := StatusDetected, absence_start_time := None,
                        detection_interval := 1\<rparr>
            in Inr (if \<not> session_active s3
                    then s3\<lparr>session_start_time := Some current_time, session_active := True\<rparr>
                    else s3))
         else
           (let s3 = s2\<lparr>status_label := StatusNotDetected\<rparr>
            in if session_active s3 then
                 (let a = (case absence_start_time s3 of None \<Rightarrow> current_time | Some a0 \<Rightarrow> a0);
                      s4 = s3\<lparr>absence_start_time := Some a\<rparr>;
                      absence_duration = current_time - a
                  in if absence_duration \<ge> absence_threshold then
                       (case session_start_time s4 of
                          None \<Rightarrow> Inl TypeError
                        | Some st \<Rightarrow>
                            (let session_end_time = a;
                                 d = session_end_time - st;
                                 s5 = (if d > 0.1 then save_session s4 st session_end_time d e
                                       else s4)
                             in Inr (s5\<lparr>session_active := False, session_start_time := None,
                                        current_session_duration := 0, session_time_label := 0,
                                        absence_start_time := None, detection_interval := 10\<rparr>)))
                     else Inr s4)
               else Inr (s3\<lparr>detection_interval := 10\<rparr>)))"

text \<open>The two display updates at the end of a processed frame.\<close>

definition update_displays :: "tracker \<Rightarrow> real \<Rightarrow> py_error + tracker" where
  "update_displays s current_time =
     bind_res
       (if session_active s then
          (case session_start_time s of
             None \<Rightarrow> Inl TypeError
           | Some st \<Rightarrow> Inr (s\<lparr>current_session_duration := current_time - st,
                              session_time_label := current_time - st\<rparr>))
        else Inr s)
       (\<lambda>s1. let display_total =
                   (if session_active s1
                    then total_time_today s1 + current_session_duration s1
                    else total_time_today s1)
             in Inr (s1\<lparr>today_time_label := display_total\<rparr>))"

definition update_frame :: "tracker \<Rightarrow> env \<Rightarrow> py_error + tracker" where
  "update_frame s e =
     (if \<not> running s then Inr s
      else if paused s then Inr s
      else if frame_ok e then
        (let current_time = clock e
         in bind_res
              (if current_time - last_detection_run_time s \<ge> detection_interval s
               then detection_run s e else Inr s)
              (\<lambda>s1. update_displays s1 current_time))
      else bind_res (stop_tracker s e)
             (\<lambda>s1. Inr (s1\<lparr>status_label := StatusCameraReadError\<rparr>)))"

text \<open>\<^verbatim>\<open>start_tracker\<close> and the resume branch of \<^verbatim>\<open>pause_resume_tracker\<close> end with a
  call of \<^verbatim>\<open>update_frame\<close>; its reads are the second environment \<open>fe\<close>.\<close>

definition start_tracker :: "tracker \<Rightarrow> env \<Rightarrow> env \<Rightarrow> py_error + tracker" where
  "start_tracker s e fe =
     (if \<not> running s \<and> \<not> paused s then
        (let s1 = s\<lparr>running := True, paused := False, pause_start_time := None\<rparr>;
             s2 = (if \<not> conn s1 then connect_db s1 e else s1)
         in if \<not> conn s2 then Inr (update_gui_state (s2\<lparr>running := False\<rparr>))
            else if \<not> model_ok e then
              Inr (update_gui_state (close_db (s2\<lparr>running := False\<rparr>)))
            else if \<not> camera_ok e then
              Inr ((update_gui_state (close_db (s2\<lparr>running := False\<rparr>)))
                     \<lparr>status_label := StatusCameraError\<rparr>)
            else
              (let s3 = s2\<lparr>session_active := False, session_start_time := None,
                           current_session_duration := 0, absence_start_time := None,
                           last_detection_run_time := clock e, detection_interval := 1\<rparr>;
                   s4 = s3\<lparr>total_time_today := get_total_time_for_today s3 e\<rparr>;
                   s5 = s4\<lparr>today_time_label := total_time_today s4, session_time_label := 0\<rparr>
               in update_frame (update_gui_state s5) fe))
      else Inr s)"

definition pause_resume_tracker :: "tracker \<Rightarrow> env \<Rightarrow> env \<Rightarrow> py_error + tracker" where
  "pause_resume_tracker s e fe =
     (if \<not> running s then Inr s
      else if \<not> paused s then
        Inr ((update_gui_state (s\<lparr>paused := True, pause_start_time := Some (clock e)\<rparr>))
               \<lparr>status_label := StatusPaused\<rparr>)
      else
        (let pause_duration = (case pause_start_time s of
                                 Some p \<Rightarrow> clock e - p
                               | None \<Rightarrow> 0)
         in bind_res
              (if session_active s then
                 (case session_start_time s of
                    None \<Rightarrow> Inl TypeError
                  | Some st \<Rightarrow> Inr (s\<lparr>session_start_time := Some (st + pause_duration)\<rparr>))
               else Inr s)
              (\<lambda>s1. let s2 = (case absence_start_time s1 of
                                Some a \<Rightarrow> s1\<lparr>absence_start_time := Some (a + pause_duration)\<rparr>
                              | None \<Rightarrow> s1);
                        s3 = s2\<lparr>last_detection_run_time :=
                                   last_detection_run_time s2 + pause_duration\<rparr>;
                        s4 = s3\<lparr>paused := False, pause_start_time := None\<rparr>
                    in update_frame (update_gui_state s4) fe)))"

subsection \<open>Executions\<close>

datatype event =
    Start env env
  | PauseResume env env
  | Stop env
  | Tick env

fun step :: "tracker \<Rightarrow> event \<Rightarrow> py_error + tracker" where
  "step s (Start e fe) = start_tracker s e fe"
| "step s (PauseResume e fe) = pause_resume_tracker s e fe"
| "step s (Stop e) = stop_tracker s e"
| "step s (Tick e) = update_frame s e"

fun run :: "tracker \<Rightarrow> event list \<Rightarrow> py_error + tracker" where
  "run s [] = Inr s"
| "run s (ev # evs) = bind_res (step s ev) (\<lambda>s1. run s1 evs)"

inductive reachable :: "tracker \<Rightarrow> bool" where
  reachable_init: "reachable (init_tracker rows e)"
| reachable_step: "reachable s \<Longrightarrow> step s ev = Inr s' \<Longrightarrow> reachable s'"

text \<open>What every reachable tracker satisfies: an active session has a start time and is
  polled at the fast interval.\<close>

definition session_inv :: "tracker \<Rightarrow> bool" where
  "session_inv s \<longleftrightarrow>
     (session_active s \<longrightarrow> session_start_time s \<noteq> None \<and> detection_interval s = 1)"


text \<open>An environment in which every external call succeeds, at time \<open>t\<close> with detector
  outcome \<open>d\<close>.\<close>

definition ok_env :: "real \<Rightarrow> detection \<Rightarrow> env" where
  "ok_env t d = \<lparr>clock = t, frame_ok = True, track = d, db_connect_ok = True,
                 db_insert_ok = True, db_query_ok = True, model_ok = True, camera_ok = True\<rparr>"

subsection \<open>Scenarios\<close>

text \<open>A tracker constructed on an empty database, and events in which every external
  call succeeds.  A tracker started at time \<open>-1\<close> has its first detection run due at
  time \<open>0\<close>.\<close>

definition fresh_tracker :: tracker where
  "fresh_tracker = init_tracker [] (ok_env (-1) (Boxes 0))"

definition start_at :: "real \<Rightarrow> event" where
  "start_at t = Start (ok_env t (Boxes 0)) (ok_env t (Boxes 0))"

definition present_at :: "real \<Rightarrow> event" where
  "present_at t = Tick (ok_env t (Boxes 1))"

definition absent_at :: "real \<Rightarrow> event" where
  "absent_at t = Tick (ok_env t (Boxes 0))"

definition error_at :: "real \<Rightarrow> event" where
  "error_at t = Tick (ok_env t TrackError)"

definition toggle_at :: "real \<Rightarrow> event" where
  "toggle_at t = PauseResume (ok_env t (Boxes 0)) (ok_env t (Boxes 0))"

definition stop_at :: "real \<Rightarrow> event" where
  "stop_at t = Stop (ok_env t (Boxes 0))"

section \<open>Properties\<close>

lemmas tracker_defs = stop_tracker_def detection_run_def update_displays_def update_frame_def
  start_tracker_def pause_resume_tracker_def save_session_def get_total_time_for_today_def
  close_db_def connect_db_def update_gui_state_def bind_res_def person_detected_def
  absence_threshold_def

lemmas demo_defs = fresh_tracker_def init_tracker_def start_at_def present_at_def absent_at_def
  error_at_def toggle_at_def stop_at_def ok_env_def sum_duration_for_day_def day_of_def

lemma run_append: "run s (xs @ ys) = bind_res (run s xs) (\<lambda>s1. run s1 ys)"
  by (induction xs arbitrary: s) (auto simp: bind_res_def split: sum.splits)

lemma run_snoc: "run s xs = Inr s1 \<Longrightarrow> run s (xs @ [ev]) = step s1 ev"
  by (simp add: run_append bind_res_def split: sum.splits)

subsection \<open>Closing a session after a confirmed absence\<close>

text \<open>
  Claim C2.  Take a frame on which a detection run is due and finds nobody while a
  session is active, and let \<open>a\<close> be the start of the current absence: the stored
  \<open>absence_start_time\<close>, or the time of this run when none was stored.  If the run comes
  at least \<open>absence_threshold\<close> (3.0 s) after \<open>a\<close>, the session is closed, and the row
  written for it (when its duration exceeds 0.1 s and the insert succeeds) ends at
  \<open>a\<close>, not at the time of the run, with duration \<open>a - session_start_time\<close>.
  Otherwise the session stays active with the same start, the absence still starts at
  \<open>a\<close>, and nothing is written.
\<close>

theorem absence_close_backdated:
  assumes "running s" and "\<not> paused s" and "frame_ok e"
    and "detection_interval s \<le> clock e - last_detection_run_time s"
    and "\<not> person_detected (track e)"
    and "session_active s" and "session_start_time s = Some st"
    and "a = (case absence_start_time s of None \<Rightarrow> clock e | Some a0 \<Rightarrow> a0)"
  shows "\<exists>s'. update_frame s e = Inr s' \<and>
           (if clock e - a \<ge> absence_threshold
            then \<not> session_active s' \<and> session_start_time s' = None \<and>
                 absence_start_time s' = None \<and>
                 presence s' =
                   (if a - st > 0.1 \<and> conn s \<and> db_insert_ok e
                    then presence s @ [\<lparr>start_time = st, end_time = a, duration = a - st\<rparr>]
                    else presence s)
            else session_active s' \<and> session_start_time s' = Some st \<and>
                 absence_start_time s' = Some a \<and> presence s' = presence s)"
  using assms by (auto simp add: tracker_defs Let_def split: option.splits detection.splits)

text \<open>The run of the specification: present at 0, absent at 1, 2, 3 and 4.  The
  session is closed by the run at 4 and stored as the single row from 0 to 1.\<close>

theorem absence_close_backdated_witness:
  "map_sum id presence
     (run fresh_tracker [start_at (-1), present_at 0, absent_at 1, absent_at 2, absent_at 3,
                         absent_at 4])
   = Inr [\<lparr>start_time = 0, end_time = 1, duration = 1\<rparr>]"
proof -
  have "\<exists>s3. run fresh_tracker [start_at (-1), present_at 0, absent_at 1, absent_at 2,
                                  absent_at 3] = Inr s3 \<and>
          running s3 \<and> \<not> paused s3 \<and> session_active s3 \<and> conn s3 \<and>
          session_start_time s3 = Some 0 \<and> absence_start_time s3 = Some 1 \<and>
          detection_interval s3 = 1 \<and> last_detection_run_time s3 = 3 \<and> presence s3 = []"
    by (simp add: demo_defs tracker_defs Let_def)
  then obtain s3 where r3: "run fresh_tracker [start_at (-1), present_at 0, absent_at 1,
        absent_at 2, absent_at 3] = Inr s3"
    and s3: "running s3" "\<not> paused s3" "session_active s3" "conn s3"
      "session_start_time s3 = Some 0" "absence_start_time s3 = Some 1"
      "detection_interval s3 = 1" "last_detection_run_time s3 = 3" "presence s3 = []"
    by blast
  from absence_close_backdated [of s3 "ok_env 4 (Boxes 0)" 0 1] s3
  obtain s4 where s4: "update_frame s3 (ok_env 4 (Boxes 0)) = Inr s4"
      "presence s4 = [\<lparr>start_time = 0, end_time = 1, duration = 1\<rparr>]"
    by (auto simp: ok_env_def person_detected_def absence_threshold_def)
  from run_snoc [OF r3, of "absent_at 4"] s4 show ?thesis
    by (simp add: absent_at_def)
qed

subsection \<open>Debouncing of short absences\<close>

text \<open>While the session is active and every processed frame falls inside a window
  shorter than \<open>absence_threshold\<close> in which the current absence began, no frame closes
  the session, whatever the detector reports.\<close>

lemma tick_within_window:
  assumes "running s" and "\<not> paused s" and "session_active s"
    and "session_start_time s = Some st"
    and "case absence_start_time s of None \<Rightarrow> True | Some a \<Rightarrow> t0 \<le> a"
    and "frame_ok e" and "t0 \<le> clock e" and "clock e < t0 + absence_threshold"
  shows "\<exists>s'. update_frame s e = Inr s' \<and> running s' \<and> \<not> paused s' \<and> session_active s' \<and>
           session_start_time s' = Some st \<and>
           (case absence_start_time s' of None \<Rightarrow> True | Some a \<Rightarrow> t0 \<le> a) \<and>
           presence s' = presence s"
  using assms by (auto simp add: tracker_defs Let_def split: option.splits detection.splits)

lemma ticks_within_window:
  assumes "running s" and "\<not> paused s" and "session_active s"
    and "session_start_time s = Some st"
    and "case absence_start_time s of None \<Rightarrow> True | Some a \<Rightarrow> t0 \<le> a"
    and "\<forall>e \<in> set es. frame_ok e \<and> t0 \<le> clock e \<and> clock e < t0 + absence_threshold"
  shows "\<exists>s'. run s (map Tick es) = Inr s' \<and> running s' \<and> \<not> paused s' \<and> session_active s' \<and>
           session_start_time s' = Some st \<and> presence s' = presence s"
  using assms
proof (induction es arbitrary: s)
  case Nil
  then show ?case by simp
next
  case (Cons e es)
  from Cons.prems have e: "frame_ok e" "t0 \<le> clock e" "clock e < t0 + absence_threshold"
    by simp_all
  from tick_within_window [OF Cons.prems(1-5) e]
  obtain s1 where s1: "update_frame s e = Inr s1" "running s1" "\<not> paused s1"
      "session_active s1" "session_start_time s1 = Some st"
      "case absence_start_time s1 of None \<Rightarrow> True | Some a \<Rightarrow> t0 \<le> a"
      "presence s1 = presence s"
    by blast
  from Cons.prems have "\<forall>e \<in> set es. frame_ok e \<and> t0 \<le> clock e \<and> clock e < t0 + absence_threshold"
    by simp
  from Cons.IH [OF s1(2-6) this] s1(1,7) show ?case
    by (simp add: bind_res_def)
qed

lemma present_run_keeps_session:
  assumes "running s" and "\<not> paused s" and "session_active s"
    and "session_start_time s = Some st"
    and "frame_ok e" and "person_detected (track e)"
    and "detection_interval s \<le> clock e - last_detection_run_time s"
  shows "\<exists>s'. update_frame s e = Inr s' \<and> session_active s' \<and>
           session_start_time s' = Some st \<and> absence_start_time s' = None \<and>
           presence s' = presence s"
  using assms by (auto simp add: tracker_defs Let_def split: option.splits detection.splits)

text \<open>
  Claim C3.  Start from an active session whose pending absence, if any, began at or after
  \<open>t0\<close>, and process frames \<open>es\<close> whose times all lie in the window from \<open>t0\<close> to less
  than \<open>t0 + absence_threshold\<close>, so that less than 3.0 s of absence can have accumulated
  at any of them.  Then the session is still active with the same start and no row has
  been written; and when a detection run is due at a following frame \<open>e'\<close> that sees the
  subject, the session is again still active with the same start, \<open>absence_start_time\<close> is
  reset to none, and still no row has been written: there is no session boundary.
\<close>

theorem debounce_holds:
  assumes "running s" and "\<not> paused s" and "session_active s"
    and "session_start_time s = Some st"
    and "case absence_start_time s of None \<Rightarrow> True | Some a \<Rightarrow> t0 \<le> a"
    and "\<forall>e \<in> set es. frame_ok e \<and> t0 \<le> clock e \<and> clock e < t0 + absence_threshold"
    and "frame_ok e'" and "person_detected (track e')"
  shows "\<exists>s1. run s (map Tick es) = Inr s1 \<and> session_active s1 \<and>
           session_start_time s1 = Some st \<and> presence s1 = presence s \<and>
           (detection_interval s1 \<le> clock e' - last_detection_run_time s1 \<longrightarrow>
            (\<exists>s2. run s (map Tick (es @ [e'])) = Inr s2 \<and> session_active s2 \<and>
                  session_start_time s2 = Some st \<and> absence_start_time s2 = None \<and>
                  presence s2 = presence s))"
proof -
  from ticks_within_window [OF assms(1-6)]
  obtain s1 where s1: "run s (map Tick es) = Inr s1" "running s1" "\<not> paused s1"
      "session_active s1" "session_start_time s1 = Some st" "presence s1 = presence s"
    by blast
  have "\<exists>s2. run s (map Tick (es @ [e'])) = Inr s2 \<and> session_active s2 \<and>
          session_start_time s2 = Some st \<and> absence_start_time s2 = None \<and>
          presence s2 = presence s"
    if due: "detection_interval s1 \<le> clock e' - last_detection_run_time s1"
    using present_run_keeps_session [OF s1(2-5) assms(7,8) due] run_snoc [OF s1(1), of "Tick e'"]
      s1(6) by auto
  with s1 show ?thesis by blast
qed

text \<open>The run of the specification: present at 0, absent at 1, present at 2 leaves
  the one session that began at 0 active, with nothing stored.\<close>

theorem debounce_holds_witness:
  "\<exists>s2. run fresh_tracker [start_at (-1), present_at 0, absent_at 1, present_at 2] = Inr s2 \<and>
     session_active s2 \<and> session_start_time s2 = Some 0 \<and> absence_start_time s2 = None \<and>
     presence s2 = []"
proof -
  have "\<exists>s. run fresh_tracker [start_at (-1), present_at 0] = Inr s \<and>
          running s \<and> \<not> paused s \<and> session_active s \<and>
          session_start_time s = Some 0 \<and> absence_start_time s = None \<and>
          detection_interval s = 1 \<and> last_detection_run_time s = 0 \<and> presence s = []"
    by (simp add: demo_defs tracker_defs Let_def)
  then obtain s where r: "run fresh_tracker [start_at (-1), present_at 0] = Inr s"
    and s: "running s" "\<not> paused s" "session_active s" "session_start_time s = Some 0"
      "absence_start_time s = None" "presence s = []"
    by blast
  have abs: "case absence_start_time s of None \<Rightarrow> True | Some a \<Rightarrow> 1 \<le> a"
    using s by simp
  have win: "\<forall>e \<in> set [ok_env 1 (Boxes 0)].
      frame_ok e \<and> 1 \<le> clock e \<and> clock e < 1 + absence_threshold"
    by (simp add: ok_env_def absence_threshold_def)
  have p: "frame_ok (ok_env 2 (Boxes 1))" "person_detected (track (ok_env 2 (Boxes 1)))"
    by (simp_all add: ok_env_def person_detected_def)
  from debounce_holds [OF s(1-4) abs win p]
  obtain s1 where s1: "run s (map Tick [ok_env 1 (Boxes 0)]) = Inr s1"
    and imp: "detection_interval s1 \<le> clock (ok_env 2 (Boxes 1)) - last_detection_run_time s1 \<longrightarrow>
            (\<exists>s2. run s (map Tick ([ok_env 1 (Boxes 0)] @ [ok_env 2 (Boxes 1)])) = Inr s2 \<and>
                  session_active s2 \<and> session_start_time s2 = Some 0 \<and>
                  absence_start_time s2 = None \<and> presence s2 = presence s)"
    by blast
  have "run fresh_tracker [start_at (-1), present_at 0, absent_at 1] = Inr s1"
    using run_append [of fresh_tracker "[start_at (-1), present_at 0]" "[absent_at 1]"] r s1
    by (simp add: bind_res_def absent_at_def)
  moreover have "\<exists>s1. run fresh_tracker [start_at (-1), present_at 0, absent_at 1] = Inr s1 \<and>
      detection_interval s1 = 1 \<and> last_detection_run_time s1 = 1"
    by (simp add: demo_defs tracker_defs Let_def)
  ultimately have "detection_interval s1 \<le> clock (ok_env 2 (Boxes 1)) - last_detection_run_time s1"
    by (auto simp: ok_env_def)
  with imp obtain s2 where
    s2: "run s (map Tick ([ok_env 1 (Boxes 0)] @ [ok_env 2 (Boxes 1)])) = Inr s2"
      "session_active s2" "session_start_time s2 = Some 0" "absence_start_time s2 = None"
      "presence s2 = presence s"
    by blast
  have "run fresh_tracker [start_at (-1), present_at 0, absent_at 1, present_at 2] = Inr s2"
    using run_append [of fresh_tracker "[start_at (-1), present_at 0]"
        "[absent_at 1, present_at 2]"] r s2(1)
    by (simp add: bind_res_def absent_at_def present_at_def)
  with s2 s show ?thesis by simp
qed

subsection \<open>Auxiliary facts about single operations\<close>

lemma bind_res_simps [simp]:
  "bind_res (Inl err) f = Inl err" "bind_res (Inr x) f = f x"
  by (simp_all add: bind_res_def)

lemma bind_res_eq_Inr: "bind_res r f = Inr y \<longleftrightarrow> (\<exists>x. r = Inr x \<and> f x = Inr y)"
  by (cases r) simp_all

lemma update_displays_fields:
  assumes "update_displays s t = Inr s'"
  shows "running s' = running s" and "paused s' = paused s" and "conn s' = conn s"
    and "presence s' = presence s" and "session_active s' = session_active s"
    and "session_start_time s' = session_start_time s"
    and "last_detection_run_time s' = last_detection_run_time s"
    and "detection_interval s' = detection_interval s"
    and "absence_start_time s' = absence_start_time s"
    and "total_time_today s' = total_time_today s"
    and "pause_start_time s' = pause_start_time s"
    and "status_label s' = status_label s"
  using assms
  by (auto simp add: update_displays_def bind_res_def Let_def split: option.splits if_splits)

lemma detection_run_flags:
  assumes "detection_run s e = Inr s'"
  shows "running s' = running s" and "paused s' = paused s"
  using assms
  by (auto simp add: detection_run_def save_session_def Let_def
      split: option.splits detection.splits if_splits)

lemma stop_tracker_flags:
  assumes "stop_tracker s e = Inr s'" and "running s \<or> paused s"
  shows "\<not> running s'" and "\<not> paused s'"
  using assms
  by (auto simp add: stop_tracker_def save_session_def close_db_def update_gui_state_def
      bind_res_eq_Inr Let_def split: option.splits if_splits)

lemma update_frame_flags:
  assumes "running s" and "\<not> paused s" and "update_frame s e = Inr s'"
  shows "running s' = frame_ok e" and "\<not> paused s'"
proof -
  have "running s' = frame_ok e \<and> \<not> paused s'"
  proof (cases "frame_ok e")
    case True
    with assms obtain s1 where
      s1: "(if detection_interval s \<le> clock e - last_detection_run_time s
            then detection_run s e else Inr s) = Inr s1"
      and s': "update_displays s1 (clock e) = Inr s'"
      by (auto simp add: update_frame_def bind_res_eq_Inr Let_def)
    from s1 assms(1,2) have "running s1 \<and> \<not> paused s1"
      by (auto simp: detection_run_flags split: if_splits)
    with s' True show ?thesis by (simp add: update_displays_fields)
  next
    case False
    with assms obtain s1 where "stop_tracker s e = Inr s1"
      and "s' = s1\<lparr>status_label := StatusCameraReadError\<rparr>"
      by (auto simp add: update_frame_def bind_res_eq_Inr)
    with False assms(1) show ?thesis by (simp add: stop_tracker_flags)
  qed
  then show "running s' = frame_ok e" and "\<not> paused s'" by simp_all
qed

lemma update_frame_flags_imp:
  "update_frame s e = Inr s' \<Longrightarrow>
   running s \<and> \<not> paused s \<longrightarrow> running s' = frame_ok e \<and> \<not> paused s'"
  using update_frame_flags by blast

lemma resume_flags:
  assumes "running s" and "paused s" and "pause_resume_tracker s e fe = Inr s'"
  shows "running s' = frame_ok fe \<and> \<not> paused s'"
  using assms
  by (auto simp add: pause_resume_tracker_def bind_res_eq_Inr update_gui_state_def Let_def
      split: option.splits if_splits dest!: update_frame_flags_imp)

lemma frame_without_session:
  assumes "running s" and "\<not> paused s" and "\<not> session_active s" and "frame_ok e"
  shows "\<exists>s'. update_frame s e = Inr s' \<and>
           last_detection_run_time s' =
             (if detection_interval s \<le> clock e - last_detection_run_time s
              then clock e else last_detection_run_time s)"
  using assms
  by (auto simp add: update_frame_def detection_run_def update_displays_def Let_def
      split: detection.splits)

subsection \<open>Pause, resume and stop\<close>

text \<open>Resuming moves the session start, the pending absence start and the time of the
  last detection run forward by the length of the pause (shown for a resume whose own
  first frame is read and needs no detection run).\<close>

lemma resume_shifts_timestamps:
  assumes "running s" and "paused s" and "pause_start_time s = Some p"
    and "session_active s \<longrightarrow> session_start_time s \<noteq> None"
    and "frame_ok fe"
    and "clock fe - (last_detection_run_time s + (clock e - p)) < detection_interval s"
  shows "\<exists>s'. pause_resume_tracker s e fe = Inr s' \<and> running s' \<and> \<not> paused s' \<and>
           session_active s' = session_active s \<and>
           session_start_time s' =
             (if session_active s then map_option (\<lambda>t. t + (clock e - p)) (session_start_time s)
              else session_start_time s) \<and>
           absence_start_time s' = map_option (\<lambda>t. t + (clock e - p)) (absence_start_time s) \<and>
           last_detection_run_time s' = last_detection_run_time s + (clock e - p) \<and>
           presence s' = presence s"
  using assms by (auto simp add: tracker_defs Let_def split: option.splits)

text \<open>A session that began at 0, paused at 5 for 100 s, resumed and then stopped is
  stored with a duration of 5 s.\<close>

lemma resume_then_stop_excludes_pause:
  "map_sum id presence
     (run fresh_tracker [start_at (-1), present_at 0, toggle_at 5, toggle_at 105, stop_at 105])
   = Inr [\<lparr>start_time = 100, end_time = 105, duration = 5\<rparr>]"
  by (simp add: demo_defs tracker_defs Let_def)

text \<open>
  Claim C1 asks that time spent paused is never counted, also when \<^verbatim>\<open>stop_tracker\<close>
  is called while the tracker is still paused.  The shift of the timestamps is made by
  the resume branch only; \<^verbatim>\<open>stop_tracker\<close> subtracts the unshifted session start from the
  current time.  The same session, begun at 0 and paused at 5, stopped at 105 without a
  resume, is stored with a duration of 105 s: the 100 s of pause are counted.
\<close>

theorem stop_while_paused_counts_pause:
  "map_sum id presence
     (run fresh_tracker [start_at (-1), present_at 0, toggle_at 5, stop_at 105])
   = Inr [\<lparr>start_time = 0, end_time = 105, duration = 105\<rparr>]"
  by (simp add: demo_defs tracker_defs Let_def)

subsection \<open>The absence start outside a session\<close>

text \<open>A detection run never leaves an absence start behind without an active session.\<close>

lemma detection_run_keeps_absence_inv:
  assumes "absence_start_time s \<noteq> None \<longrightarrow> session_active s"
    and "detection_run s e = Inr s'"
  shows "absence_start_time s' \<noteq> None \<longrightarrow> session_active s'"
  using assms by (auto simp add: tracker_defs Let_def split: option.splits detection.splits if_splits)

text \<open>
  Claim C4 asks that \<open>absence_start_time\<close> is never set while no session is active, also
  after a stop during a pending absence.  \<^verbatim>\<open>stop_tracker\<close> resets the session fields but
  not \<^verbatim>\<open>absence_start_time\<close>: after present at 0, absent at 1 and a stop at 2 the tracker
  has no active session and still holds the absence start 1.
\<close>

theorem stop_leaves_absence_start:
  "\<exists>s. run fresh_tracker [start_at (-1), present_at 0, absent_at 1, stop_at 2] = Inr s \<and>
       \<not> session_active s \<and> absence_start_time s = Some 1"
  by (simp add: demo_defs tracker_defs Let_def)

subsection \<open>Stop and the pause/resume toggle\<close>

text \<open>
  Claim C5 as stated fails for its second half: the class has one method for pause and
  resume, and calling it on a paused tracker resumes.  After a start and one toggle the
  tracker is paused; after a second toggle it is not.
\<close>

theorem pause_when_paused_counterexample:
  "map_sum id paused (run fresh_tracker [start_at (-1), toggle_at 5]) = Inr True \<and>
   map_sum id paused (run fresh_tracker [start_at (-1), toggle_at 5, toggle_at 6]) = Inr False"
  by (simp add: demo_defs tracker_defs Let_def)

text \<open>
  Claim C5, amended.  On a stopped tracker (neither running nor paused) \<^verbatim>\<open>stop_tracker\<close>
  and \<^verbatim>\<open>pause_resume_tracker\<close> both leave the whole state unchanged.  On a paused tracker
  \<^verbatim>\<open>pause_resume_tracker\<close> is not a no-op: it resumes, so the tracker is no longer paused
  afterwards (and is running whenever the frame read on resuming succeeds).
\<close>

theorem stop_and_toggle_when_idle:
  "(\<not> running s \<and> \<not> paused s \<longrightarrow>
      stop_tracker s e = Inr s \<and> pause_resume_tracker s e fe = Inr s) \<and>
   (running s \<and> paused s \<and> pause_resume_tracker s e fe = Inr s' \<longrightarrow>
      running s' = frame_ok fe \<and> \<not> paused s')"
proof (intro conjI impI)
  assume "\<not> running s \<and> \<not> paused s"
  then show "stop_tracker s e = Inr s" by (simp add: stop_tracker_def)
next
  assume "\<not> running s \<and> \<not> paused s"
  then show "pause_resume_tracker s e fe = Inr s" by (simp add: pause_resume_tracker_def)
next
  assume a: "running s \<and> paused s \<and> pause_resume_tracker s e fe = Inr s'"
  then show "running s' = frame_ok fe" and "\<not> paused s'"
    using resume_flags by blast+
qed

theorem stop_and_toggle_when_idle_witness:
  "stop_tracker fresh_tracker (ok_env 0 (Boxes 0)) = Inr fresh_tracker \<and>
   pause_resume_tracker fresh_tracker (ok_env 0 (Boxes 0)) (ok_env 0 (Boxes 0))
     = Inr fresh_tracker \<and>
   map_sum id running (run fresh_tracker [start_at (-1), toggle_at 5, toggle_at 6]) = Inr True \<and>
   map_sum id paused (run fresh_tracker [start_at (-1), toggle_at 5, toggle_at 6]) = Inr False"
proof -
  have idle: "\<not> running fresh_tracker \<and> \<not> paused fresh_tracker"
    by (simp add: demo_defs tracker_defs Let_def)
  have "\<exists>sp. run fresh_tracker [start_at (-1), toggle_at 5] = Inr sp \<and> running sp \<and> paused sp"
    by (simp add: demo_defs tracker_defs Let_def)
  then obtain sp where sp: "run fresh_tracker [start_at (-1), toggle_at 5] = Inr sp"
    "running sp" "paused sp"
    by blast
  have "\<exists>s'. run fresh_tracker [start_at (-1), toggle_at 5, toggle_at 6] = Inr s'"
    by (simp add: demo_defs tracker_defs Let_def)
  then obtain s' where s': "run fresh_tracker [start_at (-1), toggle_at 5, toggle_at 6] = Inr s'"
    by blast
  with run_snoc [OF sp(1), of "toggle_at 6"]
  have res: "pause_resume_tracker sp (ok_env 6 (Boxes 0)) (ok_env 6 (Boxes 0)) = Inr s'"
    by (simp add: toggle_at_def)
  have "frame_ok (ok_env 6 (Boxes 0))" by (simp add: ok_env_def)
  with stop_and_toggle_when_idle [of sp "ok_env 6 (Boxes 0)" "ok_env 6 (Boxes 0)" s'] sp res
  have "running s' \<and> \<not> paused s'" by simp
  with s' stop_and_toggle_when_idle [of fresh_tracker "ok_env 0 (Boxes 0)" "ok_env 0 (Boxes 0)"]
    idle
  show ?thesis by simp
qed

subsection \<open>The displayed daily total\<close>

text \<open>After a processed frame the label shows the stored total plus the time since the
  session start while a session is active, and the stored total alone otherwise.\<close>

lemma frame_display_total:
  assumes "running s" and "\<not> paused s" and "frame_ok e" and "update_frame s e = Inr s'"
  shows "today_time_label s' =
           (case (session_active s', session_start_time s') of
              (True, Some st) \<Rightarrow> total_time_today s' + (clock e - st)
            | _ \<Rightarrow> total_time_today s')"
  using assms by (auto simp add: tracker_defs Let_def split: option.splits detection.splits if_splits)

text \<open>When a frame closes the session and writes its row, the stored total is read back
  from the table, and that sum is what the label shows.\<close>

lemma absence_close_refreshes_total:
  assumes "running s" and "\<not> paused s" and "frame_ok e" and "update_frame s e = Inr s'"
    and "session_active s" and "\<not> session_active s'"
    and "presence s' \<noteq> presence s" and "db_query_ok e"
  shows "(\<exists>r. presence s' = presence s @ [r]) \<and>
         total_time_today s' = sum_duration_for_day (presence s') (day_of (clock e)) \<and>
         today_time_label s' = sum_duration_for_day (presence s') (day_of (clock e))"
  using assms by (auto simp add: tracker_defs Let_def split: option.splits detection.splits if_splits)

text \<open>
  Claim C7 asks that right after a session is stored and closed the displayed total is
  the stored sum.  That holds when a frame closes the session, but not when
  \<^verbatim>\<open>stop_tracker\<close> does: it reads the total once more after \<^verbatim>\<open>close_db\<close>, when
  \<^verbatim>\<open>get_total_time_for_today\<close> finds no cursor and returns 0.  A session from 0 stopped at
  5 is stored with 5 s, the sum for that day is 5, and the total held and shown is 0.
\<close>

theorem stop_zeroes_displayed_total:
  "\<exists>s. run fresh_tracker [start_at (-1), present_at 0, stop_at 5] = Inr s \<and>
       presence s = [\<lparr>start_time = 0, end_time = 5, duration = 5\<rparr>] \<and>
       sum_duration_for_day (presence s) (day_of 5) = 5 \<and>
       total_time_today s = 0 \<and> today_time_label s = 0"
  by (simp add: demo_defs tracker_defs Let_def)

subsection \<open>Detector errors\<close>

lemma stop_tracker_track [simp]: "stop_tracker s (e\<lparr>track := d\<rparr>) = stop_tracker s e"
  by (simp add: stop_tracker_def save_session_def get_total_time_for_today_def Let_def
      split: option.splits)

lemma detection_run_track_error:
  "detection_run s (e\<lparr>track := TrackError\<rparr>) = detection_run s (e\<lparr>track := Boxes 0\<rparr>)"
  by (simp add: detection_run_def person_detected_def save_session_def
      get_total_time_for_today_def Let_def split: option.splits)

text \<open>A frame on which the detector raises leaves exactly the tracker that a frame with
  no box leaves: the same transitions, and the same status.\<close>

lemma track_error_as_absent:
  "update_frame s (e\<lparr>track := TrackError\<rparr>) = update_frame s (e\<lparr>track := Boxes 0\<rparr>)"
  by (simp add: update_frame_def detection_run_track_error Let_def)

text \<open>
  Claim C8 asks that a detector error is handled as an absent reading, is not fatal, and
  is reported as a status of its own.  The first two hold.  The status does not: the
  handler sets the label to the detection-error text, and the branch for an absent
  reading, taken next in the same call, sets it to the not-detected text.  After present
  at 0 and a detector error at 1 the status is that of an absent reading, and the whole
  tracker equals the one left by an absent reading at 1.
\<close>

theorem detection_error_status_overwritten:
  "\<exists>s. run fresh_tracker [start_at (-1), present_at 0, error_at 1] = Inr s \<and>
       status_label s = StatusNotDetected \<and>
       run fresh_tracker [start_at (-1), present_at 0, absent_at 1] = Inr s"
  by (simp add: demo_defs tracker_defs Let_def)

subsection \<open>The polling interval\<close>

text \<open>Every operation returns a tracker, never an error, and keeps \<open>session_inv\<close>.\<close>

lemma detection_run_policy:
  assumes "session_inv s"
  shows "\<exists>s'. detection_run s e = Inr s' \<and> session_inv s' \<and>
           (if person_detected (track e) \<or> session_active s'
            then detection_interval s' = 1 else detection_interval s' = 10)"
  using assms
  by (auto simp add: session_inv_def detection_run_def save_session_def Let_def
      split: option.splits detection.splits)

lemma update_displays_total:
  assumes "session_inv s"
  shows "\<exists>s'. update_displays s t = Inr s'"
  using assms
  by (auto simp add: session_inv_def update_displays_def Let_def split: option.splits)

lemma update_displays_inv:
  assumes "update_displays s t = Inr s'"
  shows "session_inv s' = session_inv s"
  using update_displays_fields [OF assms] by (simp add: session_inv_def)

lemma stop_tracker_inv:
  assumes "session_inv s"
  shows "\<exists>s'. stop_tracker s e = Inr s' \<and> session_inv s'"
  using assms
  by (auto simp add: session_inv_def stop_tracker_def save_session_def close_db_def
      update_gui_state_def Let_def split: option.splits)

lemma update_frame_inv:
  assumes "session_inv s"
  shows "\<exists>s'. update_frame s e = Inr s' \<and> session_inv s'"
proof (cases "running s \<and> \<not> paused s")
  case False
  with assms show ?thesis by (auto simp add: update_frame_def)
next
  case True
  show ?thesis
  proof (cases "frame_ok e")
    case False
    from stop_tracker_inv [OF assms, of e] obtain s1
      where "stop_tracker s e = Inr s1" "session_inv s1" by blast
    with True False show ?thesis
      by (simp add: update_frame_def session_inv_def)
  next
    case ok: True
    have "\<exists>s1. (if detection_interval s \<le> clock e - last_detection_run_time s
            then detection_run s e else Inr s) = Inr s1 \<and> session_inv s1"
      using detection_run_policy [OF assms, of e] assms by auto
    then obtain s1 where s1: "(if detection_interval s \<le> clock e - last_detection_run_time s
            then detection_run s e else Inr s) = Inr s1" "session_inv s1"
      by blast
    from update_displays_total [OF s1(2), of "clock e"] obtain s'
      where s': "update_displays s1 (clock e) = Inr s'" by blast
    with s1 update_displays_inv [OF s'] True ok show ?thesis
      by (simp add: update_frame_def Let_def)
  qed
qed

lemma update_gui_state_fields [simp]:
  "running (update_gui_state s) = running s" "paused (update_gui_state s) = paused s"
  "conn (update_gui_state s) = conn s" "presence (update_gui_state s) = presence s"
  "session_active (update_gui_state s) = session_active s"
  "session_start_time (update_gui_state s) = session_start_time s"
  "last_detection_run_time (update_gui_state s) = last_detection_run_time s"
  "detection_interval (update_gui_state s) = detection_interval s"
  "absence_start_time (update_gui_state s) = absence_start_time s"
  "total_time_today (update_gui_state s) = total_time_today s"
  "pause_start_time (update_gui_state s) = pause_start_time s"
  by (simp_all add: update_gui_state_def)

lemma close_db_fields [simp]:
  "running (close_db s) = running s" "paused (close_db s) = paused s"
  "conn (close_db s) = False" "presence (close_db s) = presence s"
  "session_active (close_db s) = session_active s"
  "session_start_time (close_db s) = session_start_time s"
  "last_detection_run_time (close_db s) = last_detection_run_time s"
  "detection_interval (close_db s) = detection_interval s"
  "absence_start_time (close_db s) = absence_start_time s"
  "total_time_today (close_db s) = total_time_today s"
  "pause_start_time (close_db s) = pause_start_time s"
  by (simp_all add: close_db_def)

lemma connect_db_fields [simp]:
  "running (connect_db s e) = running s" "paused (connect_db s e) = paused s"
  "conn (connect_db s e) = db_connect_ok e" "presence (connect_db s e) = presence s"
  "session_active (connect_db s e) = session_active s"
  "session_start_time (connect_db s e) = session_start_time s"
  "last_detection_run_time (connect_db s e) = last_detection_run_time s"
  "detection_interval (connect_db s e) = detection_interval s"
  "absence_start_time (connect_db s e) = absence_start_time s"
  "total_time_today (connect_db s e) = total_time_today s"
  "pause_start_time (connect_db s e) = pause_start_time s"
  by (simp_all add: connect_db_def)

lemma start_tracker_inv:
  assumes "session_inv s"
  shows "\<exists>s'. start_tracker s e fe = Inr s' \<and> session_inv s'"
  using assms
  apply (simp add: start_tracker_def Let_def)
  apply (intro conjI impI update_frame_inv)
  apply (simp_all add: session_inv_def)
  done

lemma pause_resume_tracker_inv:
  assumes "session_inv s"
  shows "\<exists>s'. pause_resume_tracker s e fe = Inr s' \<and> session_inv s'"
  using assms
  apply (simp add: pause_resume_tracker_def Let_def split: option.splits)
  apply (intro conjI impI allI update_frame_inv)
  apply (simp_all add: session_inv_def)
  done

lemma step_inv:
  assumes "session_inv s"
  shows "\<exists>s'. step s ev = Inr s' \<and> session_inv s'"
  using assms
  by (cases ev)
    (simp_all add: start_tracker_inv pause_resume_tracker_inv stop_tracker_inv update_frame_inv)

lemma init_tracker_inv: "session_inv (init_tracker rows e)"
  by (simp add: init_tracker_def session_inv_def Let_def)

lemma reachable_session_inv: "reachable s \<Longrightarrow> session_inv s"
proof (induction rule: reachable.induct)
  case (reachable_init rows e)
  show ?case by (rule init_tracker_inv)
next
  case (reachable_step s ev s')
  from step_inv [OF reachable_step.IH, of ev] reachable_step.hyps(2) show ?case by simp
qed

text \<open>Whatever an execution from a reachable tracker returns is reachable.\<close>

lemma reachable_run:
  assumes "reachable s" and "run s evs = Inr s'"
  shows "reachable s'"
  using assms
proof (induction evs arbitrary: s)
  case Nil
  then show ?case by simp
next
  case (Cons ev evs)
  from Cons.prems(2) obtain s1 where "step s ev = Inr s1" "run s1 evs = Inr s'"
    by (auto simp add: bind_res_eq_Inr)
  with Cons.prems(1) Cons.IH show ?case
    by (blast intro: reachable_step)
qed

text \<open>
  Claim C9.  In every reachable tracker an active session is polled at the interval 1.0.
  After a detection run on a reachable tracker the interval is 1.0 when the subject was
  detected on that run or a session is active afterwards (also with an absence pending
  below the threshold), and 10.0 when no session is active afterwards and the run found
  nobody; in particular a run that closes the session leaves the interval 10.0.
\<close>

theorem interval_policy:
  assumes "reachable s"
  shows "(session_active s \<longrightarrow> detection_interval s = 1) \<and>
         (running s \<and> \<not> paused s \<and> frame_ok e \<and>
          detection_interval s \<le> clock e - last_detection_run_time s \<longrightarrow>
          (\<exists>s'. update_frame s e = Inr s' \<and>
                (person_detected (track e) \<or> session_active s' \<longrightarrow> detection_interval s' = 1) \<and>
                (\<not> person_detected (track e) \<and> \<not> session_active s' \<longrightarrow>
                   detection_interval s' = 10) \<and>
                (session_active s \<and> \<not> session_active s' \<longrightarrow> detection_interval s' = 10)))"
proof (intro conjI impI)
  from assms have inv: "session_inv s" by (rule reachable_session_inv)
  then show "detection_interval s = 1" if "session_active s"
    using that by (simp add: session_inv_def)
  assume due: "running s \<and> \<not> paused s \<and> frame_ok e \<and>
          detection_interval s \<le> clock e - last_detection_run_time s"
  from detection_run_policy [OF inv, of e] obtain s1 where
    s1: "detection_run s e = Inr s1" "session_inv s1"
      "if person_detected (track e) \<or> session_active s1
       then detection_interval s1 = 1 else detection_interval s1 = 10"
    by blast
  from update_displays_total [OF s1(2), of "clock e"] obtain s'
    where s': "update_displays s1 (clock e) = Inr s'" by blast
  from due s1(1) s' have "update_frame s e = Inr s'"
    by (simp add: update_frame_def Let_def)
  moreover from s1(3) update_displays_fields [OF s']
  have "if person_detected (track e) \<or> session_active s'
       then detection_interval s' = 1 else detection_interval s' = 10"
    by simp
  moreover have "person_detected (track e) \<longrightarrow> session_active s1"
    using s1(1) by (auto simp add: detection_run_def Let_def split: if_splits)
  ultimately show "\<exists>s'. update_frame s e = Inr s' \<and>
                (person_detected (track e) \<or> session_active s' \<longrightarrow> detection_interval s' = 1) \<and>
                (\<not> person_detected (track e) \<and> \<not> session_active s' \<longrightarrow>
                   detection_interval s' = 10) \<and>
                (session_active s \<and> \<not> session_active s' \<longrightarrow> detection_interval s' = 10)"
    using update_displays_fields(5) [OF s'] by (auto split: if_splits)
qed


text \<open>An absent run at 2 during the session begun at 0 keeps the interval 1.0; the absent
  run at 4 that closes the session sets it to 10.0.\<close>

theorem interval_policy_witness:
  "(\<exists>s s'. run fresh_tracker [start_at (-1), present_at 0, absent_at 1] = Inr s \<and>
       session_active s \<and> detection_interval s = 1 \<and>
       update_frame s (ok_env 2 (Boxes 0)) = Inr s' \<and>
       session_active s' \<and> detection_interval s' = 1) \<and>
   (\<exists>s s'. run fresh_tracker [start_at (-1), present_at 0, absent_at 1, absent_at 2,
                               absent_at 3] = Inr s \<and>
       session_active s \<and> detection_interval s = 1 \<and>
       update_frame s (ok_env 4 (Boxes 0)) = Inr s' \<and>
       \<not> session_active s' \<and> detection_interval s' = 10)"
proof
  have reach: "reachable fresh_tracker"
    unfolding fresh_tracker_def by (rule reachable_init)
  have np: "\<not> person_detected (track (ok_env t (Boxes 0)))" for t
    by (simp add: ok_env_def person_detected_def)
  have "\<exists>s. run fresh_tracker [start_at (-1), present_at 0, absent_at 1] = Inr s \<and>
          running s \<and> \<not> paused s \<and> session_active s \<and> last_detection_run_time s = 1"
    by (simp add: demo_defs tracker_defs Let_def)
  then obtain s where s: "run fresh_tracker [start_at (-1), present_at 0, absent_at 1] = Inr s"
      "running s" "\<not> paused s" "session_active s" "last_detection_run_time s = 1"
    by blast
  have "\<exists>s'. run fresh_tracker [start_at (-1), present_at 0, absent_at 1, absent_at 2] = Inr s' \<and>
          session_active s'"
    by (simp add: demo_defs tracker_defs Let_def)
  then obtain s' where s': "update_frame s (ok_env 2 (Boxes 0)) = Inr s'" "session_active s'"
    using run_snoc [OF s(1), of "absent_at 2"] by (auto simp add: absent_at_def)
  from interval_policy [OF reachable_run [OF reach s(1)], of "ok_env 2 (Boxes 0)"] s s'
  have "detection_interval s = 1 \<and> detection_interval s' = 1"
    by (simp add: ok_env_def)
  with s s' show "\<exists>s s'. run fresh_tracker [start_at (-1), present_at 0, absent_at 1] = Inr s \<and>
       session_active s \<and> detection_interval s = 1 \<and>
       update_frame s (ok_env 2 (Boxes 0)) = Inr s' \<and>
       session_active s' \<and> detection_interval s' = 1"
    by blast
  have "\<exists>s. run fresh_tracker [start_at (-1), present_at 0, absent_at 1, absent_at 2,
                                 absent_at 3] = Inr s \<and>
          running s \<and> \<not> paused s \<and> session_active s \<and> last_detection_run_time s = 3"
    by (simp add: demo_defs tracker_defs Let_def)
  then obtain t where t: "run fresh_tracker [start_at (-1), present_at 0, absent_at 1,
        absent_at 2, absent_at 3] = Inr t"
      "running t" "\<not> paused t" "session_active t" "last_detection_run_time t = 3"
    by blast
  have "\<exists>t'. run fresh_tracker [start_at (-1), present_at 0, absent_at 1, absent_at 2,
                                  absent_at 3, absent_at 4] = Inr t' \<and> \<not> session_active t'"
    by (simp add: demo_defs tracker_defs Let_def)
  then obtain t' where t': "update_frame t (ok_env 4 (Boxes 0)) = Inr t'" "\<not> session_active t'"
    using run_snoc [OF t(1), of "absent_at 4"] by (auto simp add: absent_at_def)
  from interval_policy [OF reachable_run [OF reach t(1)], of "ok_env 4 (Boxes 0)"] t t' np
  have "detection_interval t = 1 \<and> detection_interval t' = 10"
    by (simp add: ok_env_def)
  with t t' show "\<exists>s s'. run fresh_tracker [start_at (-1), present_at 0, absent_at 1, absent_at 2,
                               absent_at 3] = Inr s \<and>
       session_active s \<and> detection_interval s = 1 \<and>
       update_frame s (ok_env 4 (Boxes 0)) = Inr s' \<and>
       \<not> session_active s' \<and> detection_interval s' = 10"
    by blast
qed

subsection \<open>Starting\<close>

text \<open>With the resources opened, \<^verbatim>\<open>start_tracker\<close> is \<^verbatim>\<open>update_frame\<close> on the reset
  tracker.\<close>

lemma start_tracker_success:
  assumes "\<not> running s" and "\<not> paused s" and "conn s \<or> db_connect_ok e"
    and "model_ok e" and "camera_ok e"
  shows "\<exists>x. start_tracker s e fe = update_frame x fe \<and> running x \<and> \<not> paused x \<and>
           \<not> session_active x \<and> session_start_time x = None \<and>
           absence_start_time x = None \<and> last_detection_run_time x = clock e \<and>
           detection_interval x = 1"
  using assms
  apply (simp add: start_tracker_def Let_def)
  apply (intro conjI impI exI)
  apply (rule refl | simp)+
  done

lemma frame_not_due:
  assumes "running s" and "\<not> paused s" and "\<not> session_active s" and "frame_ok e"
    and "clock e - last_detection_run_time s < detection_interval s"
  shows "\<exists>s'. update_frame s e = Inr s' \<and> running s' \<and> \<not> paused s' \<and>
           \<not> session_active s' \<and> session_start_time s' = session_start_time s \<and>
           absence_start_time s' = absence_start_time s \<and>
           last_detection_run_time s' = last_detection_run_time s \<and>
           detection_interval s' = detection_interval s"
  using assms
  by (auto simp add: update_frame_def update_displays_def Let_def)

lemma frame_due_without_session:
  assumes "running s" and "\<not> paused s" and "\<not> session_active s" and "frame_ok e"
    and "detection_interval s \<le> clock e - last_detection_run_time s"
  shows "\<exists>s'. update_frame s e = Inr s' \<and> running s' \<and> \<not> paused s' \<and>
           last_detection_run_time s' = clock e \<and>
           (if person_detected (track e)
            then session_active s' \<and> session_start_time s' = Some (clock e) \<and>
                 absence_start_time s' = None \<and> detection_interval s' = 1
            else \<not> session_active s' \<and> session_start_time s' = session_start_time s \<and>
                 absence_start_time s' = absence_start_time s \<and> detection_interval s' = 10)"
  using assms
  by (auto simp add: update_frame_def detection_run_def update_displays_def Let_def
      split: detection.splits)

text \<open>
  Claim C10 as stated fails: \<^verbatim>\<open>start_tracker\<close> ends with a call of \<^verbatim>\<open>update_frame\<close>, and
  when that first frame is read 1.0 s or more after the reset, a detection run takes place
  before \<^verbatim>\<open>start_tracker\<close> returns.  With the first frame read at 1 after a start at 0, a
  person in the frame leaves a session active, and an empty frame leaves the interval 10.0.
\<close>

theorem start_first_frame_counterexample:
  "map_sum id session_active
     (start_tracker fresh_tracker (ok_env 0 (Boxes 0)) (ok_env 1 (Boxes 1))) = Inr True \<and>
   map_sum id detection_interval
     (start_tracker fresh_tracker (ok_env 0 (Boxes 0)) (ok_env 1 (Boxes 0))) = Inr 10"
  by (simp add: demo_defs tracker_defs Let_def)

text \<open>
  Claim C10, amended.  Start a stopped tracker with the database connected (or connecting),
  the model loaded, the camera opened and the first frame read.  If the first frame is read
  less than 1.0 s after the reset, the tracker runs with no session, no session start, no
  absence start, the time of the last detection run set to the time of the start and the
  interval 1.0, although no session is active and nothing has been detected; on a later
  frame a detection run then takes place exactly when the frame comes at least 1.0 s after
  the start.  If the first frame is read 1.0 s or more after the reset, the first detection
  run is made on it within the start: the time of the last detection run is the time of
  that frame, and a session is active from then with the interval 1.0 if the subject was
  detected, and no session is active with the interval 10.0 if not.
\<close>

theorem start_then_first_frame:
  assumes "\<not> running s" and "\<not> paused s" and "conn s \<or> db_connect_ok e"
    and "model_ok e" and "camera_ok e" and "frame_ok fe"
  shows "\<exists>s'. start_tracker s e fe = Inr s' \<and> running s' \<and> \<not> paused s' \<and>
           (if clock fe - clock e < 1
            then \<not> session_active s' \<and> session_start_time s' = None \<and>
                 absence_start_time s' = None \<and> last_detection_run_time s' = clock e \<and>
                 detection_interval s' = 1 \<and>
                 (\<forall>e2. frame_ok e2 \<longrightarrow>
                    (\<exists>s2. update_frame s' e2 = Inr s2 \<and>
                          last_detection_run_time s2 =
                            (if 1 \<le> clock e2 - clock e then clock e2 else clock e)))
            else last_detection_run_time s' = clock fe \<and> absence_start_time s' = None \<and>
                 (if person_detected (track fe)
                  then session_active s' \<and> session_start_time s' = Some (clock fe) \<and>
                       detection_interval s' = 1
                  else \<not> session_active s' \<and> session_start_time s' = None \<and>
                       detection_interval s' = 10))"
proof -
  from start_tracker_success [OF assms(1-5), of fe]
  obtain x where x: "start_tracker s e fe = update_frame x fe" "running x" "\<not> paused x"
      "\<not> session_active x" "session_start_time x = None" "absence_start_time x = None"
      "last_detection_run_time x = clock e" "detection_interval x = 1"
    by blast
  show ?thesis
  proof (cases "clock fe - clock e < 1")
    case True
    with x have "clock fe - last_detection_run_time x < detection_interval x" by simp
    from frame_not_due [OF x(2,3,4) assms(6) this] x
    obtain s' where s': "start_tracker s e fe = Inr s'" "running s'" "\<not> paused s'"
        "\<not> session_active s'" "session_start_time s' = None" "absence_start_time s' = None"
        "last_detection_run_time s' = clock e" "detection_interval s' = 1"
      by auto
    have "\<exists>s2. update_frame s' e2 = Inr s2 \<and>
            last_detection_run_time s2 = (if 1 \<le> clock e2 - clock e then clock e2 else clock e)"
      if "frame_ok e2" for e2
      using frame_without_session [OF s'(2,3,4) that] s'(7,8) by auto
    with s' True show ?thesis by auto
  next
    case False
    with x have "detection_interval x \<le> clock fe - last_detection_run_time x" by simp
    from frame_due_without_session [OF x(2,3,4) assms(6) this] x False
    show ?thesis by (auto split: if_splits)
  qed
qed

text \<open>A restart of a tracker stopped during a pending absence clears the absence start and
  sets the time of the last detection run; a restart of a tracker stopped at the interval
  10.0 sets the interval 1.0; a start whose first frame comes 1 s later with a person in it
  returns with the session begun at that frame.\<close>

theorem start_then_first_frame_witness:
  "(\<exists>s s'. run fresh_tracker [start_at (-1), present_at 0, absent_at 1, stop_at 2] = Inr s \<and>
       absence_start_time s = Some 1 \<and> last_detection_run_time s = 1 \<and>
       start_tracker s (ok_env 10 (Boxes 0)) (ok_env 10 (Boxes 1)) = Inr s' \<and>
       running s' \<and> \<not> session_active s' \<and> session_start_time s' = None \<and>
       absence_start_time s' = None \<and> last_detection_run_time s' = 10 \<and>
       detection_interval s' = 1 \<and>
       (\<exists>s2. update_frame s' (ok_env 11 (Boxes 1)) = Inr s2 \<and> last_detection_run_time s2 = 11) \<and>
       (\<exists>s2. update_frame s' (ok_env (21/2) (Boxes 1)) = Inr s2 \<and>
             last_detection_run_time s2 = 10)) \<and>
   (\<exists>s s'. run fresh_tracker [start_at (-1), absent_at 0, stop_at 1] = Inr s \<and>
       detection_interval s = 10 \<and>
       start_tracker s (ok_env 10 (Boxes 0)) (ok_env 10 (Boxes 1)) = Inr s' \<and>
       detection_interval s' = 1) \<and>
   (\<exists>s'. start_tracker fresh_tracker (ok_env 0 (Boxes 0)) (ok_env 1 (Boxes 1)) = Inr s' \<and>
       session_active s' \<and> session_start_time s' = Some 1 \<and> last_detection_run_time s' = 1)"
proof (intro conjI)
  have env: "db_connect_ok (ok_env t d)" "model_ok (ok_env t d)" "camera_ok (ok_env t d)"
    "frame_ok (ok_env t d)" "clock (ok_env t d) = t" "track (ok_env t d) = d" for t d
    by (simp_all add: ok_env_def)
  have "\<exists>s. run fresh_tracker [start_at (-1), present_at 0, absent_at 1, stop_at 2] = Inr s \<and>
          \<not> running s \<and> \<not> paused s \<and> absence_start_time s = Some 1 \<and>
          last_detection_run_time s = 1"
    by (simp add: demo_defs tracker_defs Let_def)
  then obtain s where s: "run fresh_tracker [start_at (-1), present_at 0, absent_at 1,
        stop_at 2] = Inr s"
      "\<not> running s" "\<not> paused s" "absence_start_time s = Some 1" "last_detection_run_time s = 1"
    by blast
  have c: "conn s \<or> db_connect_ok (ok_env 10 (Boxes 0))" by (simp add: env)
  have h: "model_ok (ok_env 10 (Boxes 0))" "camera_ok (ok_env 10 (Boxes 0))"
    "frame_ok (ok_env 10 (Boxes 1))"
    by (simp_all add: env)
  have clk: "clock (ok_env 10 (Boxes 1)) - clock (ok_env 10 (Boxes 0)) < 1"
    by (simp add: env)
  from start_then_first_frame [OF s(2,3) c h]
  have "\<exists>s'. start_tracker s (ok_env 10 (Boxes 0)) (ok_env 10 (Boxes 1)) = Inr s' \<and>
          running s' \<and> \<not> paused s' \<and>
          (\<not> session_active s' \<and> session_start_time s' = None \<and>
           absence_start_time s' = None \<and>
           last_detection_run_time s' = clock (ok_env 10 (Boxes 0)) \<and>
           detection_interval s' = 1 \<and>
           (\<forall>e2. frame_ok e2 \<longrightarrow>
              (\<exists>s2. update_frame s' e2 = Inr s2 \<and>
                    last_detection_run_time s2 =
                      (if 1 \<le> clock e2 - clock (ok_env 10 (Boxes 0)) then clock e2
                       else clock (ok_env 10 (Boxes 0))))))"
    by (simp only: clk if_True)
  then obtain s' where s0: "start_tracker s (ok_env 10 (Boxes 0)) (ok_env 10 (Boxes 1)) = Inr s'"
      "running s'" "\<not> session_active s'" "session_start_time s' = None"
      "absence_start_time s' = None"
      "last_detection_run_time s' = clock (ok_env 10 (Boxes 0))" "detection_interval s' = 1"
    and nxt: "\<forall>e2. frame_ok e2 \<longrightarrow>
           (\<exists>s2. update_frame s' e2 = Inr s2 \<and>
                 last_detection_run_time s2 =
                   (if 1 \<le> clock e2 - clock (ok_env 10 (Boxes 0)) then clock e2
                    else clock (ok_env 10 (Boxes 0))))"
    by blast
  from s0 have s': "start_tracker s (ok_env 10 (Boxes 0)) (ok_env 10 (Boxes 1)) = Inr s'"
      "running s'" "\<not> session_active s'" "session_start_time s' = None"
      "absence_start_time s' = None" "last_detection_run_time s' = 10" "detection_interval s' = 1"
    by (simp_all add: env)
  from nxt [rule_format, of "ok_env 11 (Boxes 1)"] nxt [rule_format, of "ok_env (21/2) (Boxes 1)"]
  have "(\<exists>s2. update_frame s' (ok_env 11 (Boxes 1)) = Inr s2 \<and> last_detection_run_time s2 = 11) \<and>
       (\<exists>s2. update_frame s' (ok_env (21/2) (Boxes 1)) = Inr s2 \<and>
             last_detection_run_time s2 = 10)"
    by (simp add: env)
  with s s' show "\<exists>s s'. run fresh_tracker [start_at (-1), present_at 0, absent_at 1,
         stop_at 2] = Inr s \<and>
       absence_start_time s = Some 1 \<and> last_detection_run_time s = 1 \<and>
       start_tracker s (ok_env 10 (Boxes 0)) (ok_env 10 (Boxes 1)) = Inr s' \<and>
       running s' \<and> \<not> session_active s' \<and> session_start_time s' = None \<and>
       absence_start_time s' = None \<and> last_detection_run_time s' = 10 \<and>
       detection_interval s' = 1 \<and>
       (\<exists>s2. update_frame s' (ok_env 11 (Boxes 1)) = Inr s2 \<and> last_detection_run_time s2 = 11) \<and>
       (\<exists>s2. update_frame s' (ok_env (21/2) (Boxes 1)) = Inr s2 \<and>
             last_detection_run_time s2 = 10)"
    by blast
  have "\<exists>t. run fresh_tracker [start_at (-1), absent_at 0, stop_at 1] = Inr t \<and>
          \<not> running t \<and> \<not> paused t \<and> detection_interval t = 10"
    by (simp add: demo_defs tracker_defs Let_def)
  then obtain t where t: "run fresh_tracker [start_at (-1), absent_at 0, stop_at 1] = Inr t"
      "\<not> running t" "\<not> paused t" "detection_interval t = 10"
    by blast
  have ct: "conn t \<or> db_connect_ok (ok_env 10 (Boxes 0))" by (simp add: env)
  from start_then_first_frame [OF t(2,3) ct h]
  have "\<exists>t'. start_tracker t (ok_env 10 (Boxes 0)) (ok_env 10 (Boxes 1)) = Inr t' \<and>
          detection_interval t' = 1"
    by (auto simp only: clk if_True)
  then obtain t' where "start_tracker t (ok_env 10 (Boxes 0)) (ok_env 10 (Boxes 1)) = Inr t'"
      "detection_interval t' = 1"
    by blast
  with t show "\<exists>s s'. run fresh_tracker [start_at (-1), absent_at 0, stop_at 1] = Inr s \<and>
       detection_interval s = 10 \<and>
       start_tracker s (ok_env 10 (Boxes 0)) (ok_env 10 (Boxes 1)) = Inr s' \<and>
       detection_interval s' = 1"
    by blast
  have f: "\<not> running fresh_tracker" "\<not> paused fresh_tracker"
    "conn fresh_tracker \<or> db_connect_ok (ok_env 0 (Boxes 0))"
    by (simp_all add: demo_defs tracker_defs Let_def)
  have g: "model_ok (ok_env 0 (Boxes 0))" "camera_ok (ok_env 0 (Boxes 0))"
    "frame_ok (ok_env 1 (Boxes 1))"
    by (simp_all add: env)
  have late: "\<not> clock (ok_env 1 (Boxes 1)) - clock (ok_env 0 (Boxes 0)) < 1"
    "person_detected (track (ok_env 1 (Boxes 1)))"
    by (simp_all add: env person_detected_def)
  from start_then_first_frame [OF f g]
  have "\<exists>s'. start_tracker fresh_tracker (ok_env 0 (Boxes 0)) (ok_env 1 (Boxes 1)) = Inr s' \<and>
          session_active s' \<and> session_start_time s' = Some (clock (ok_env 1 (Boxes 1))) \<and>
          last_detection_run_time s' = clock (ok_env 1 (Boxes 1))"
    by (auto simp only: late if_True if_False)
  then show "\<exists>s'. start_tracker fresh_tracker (ok_env 0 (Boxes 0)) (ok_env 1 (Boxes 1)) = Inr s' \<and>
       session_active s' \<and> session_start_time s' = Some 1 \<and> last_detection_run_time s' = 1"
    by (simp add: env)
qed

subsection \<open>Rows written to the table\<close>













end
